theory Spec2Isabelle
  imports Main
begin

section \<open>ID Token verification (verify.go)\<close>

subsection \<open>Data model\<close>

text \<open>
  Instants of time are integers; \<^verbatim>\<open>time.Time.Before\<close> is the strict order on them.
  Byte slices and Go strings are both \<^typ>\<open>string\<close>.
\<close>

type_synonym time = int

text \<open>
  Modelled from the spec: the \<^verbatim>\<open>IDToken\<close> struct is declared outside the files at hand.
  Its fields are the ones of the data model (Issuer, Subject, Audience, Expiry, Nonce and the
  raw claim bytes), which are also the ones \<^verbatim>\<open>Verify\<close> reads and writes.
\<close>

record IDToken =
  Issuer :: string
  Subject :: string
  Audience :: "string list"
  Expiry :: time
  Nonce :: string
  claims :: string

text \<open>\<^verbatim>\<open>VerificationConfig\<close>; a nil \<^verbatim>\<open>Now\<close> is \<open>None\<close>.\<close>

record VerificationConfig =
  ClientID :: string
  ClaimNonce :: string
  SupportedSigningAlgs :: "string list"
  Now :: "(unit \<Rightarrow> time) option"

text \<open>The parts of go-jose's types that \<^verbatim>\<open>Verify\<close> reads.\<close>

record Header =
  Algorithm :: string
  KeyID :: string

record Signature =
  Header :: Header

record JSONWebSignature =
  Signatures :: "Signature list"
  protected :: string

record JSONWebKey =
  KeyID :: string
  Key :: string

text \<open>
  \<^verbatim>\<open>IDTokenVerifier\<close>. The key set is an interface value with state of its own (the cached
  keys), so the verifier holds the current state of type \<open>'ks\<close>.
\<close>

record 'ks IDTokenVerifier =
  keySet :: 'ks
  cfg :: VerificationConfig
  issuer :: string

text \<open>
  The library and remote calls of \<^verbatim>\<open>Verify\<close>, as functions that return \<open>Inl\<close> of the error
  text or \<open>Inr\<close> of the value. \<open>keySet_Keys\<close> also returns the key set's next state.
\<close>

record 'ks env =
  jose_ParseSigned :: "string \<Rightarrow> string + JSONWebSignature"
  base64_DecodeString :: "string \<Rightarrow> string + string"
  json_Unmarshal :: "string \<Rightarrow> string + IDToken"
  time_Now :: "unit \<Rightarrow> time"
  keySet_Keys :: "'ks \<Rightarrow> (string + JSONWebKey list) \<times> 'ks"
  jws_Verify :: "JSONWebSignature \<Rightarrow> JSONWebKey \<Rightarrow> string + string"

text \<open>
  Modelled from the spec: the \<^verbatim>\<open>xerrors\<close> package is not among the files at hand. It is the
  aggregate of the per-key errors: \<^verbatim>\<open>New\<close> is empty, \<^verbatim>\<open>Add\<close> appends one error, and
  \<^verbatim>\<open>ErrorOrNil\<close> is nil exactly when nothing was added and otherwise retains every message.
\<close>

type_synonym xerrors = "string list"

definition xerrors_New :: xerrors where
  "xerrors_New = []"

definition xerrors_Add :: "xerrors \<Rightarrow> string \<Rightarrow> xerrors" where
  "xerrors_Add x err = x @ [err]"

definition xerrors_ErrorOrNil :: "xerrors \<Rightarrow> string list option" where
  "xerrors_ErrorOrNil x = (if x = [] then None else Some x)"

text \<open>One constructor for each error that \<^verbatim>\<open>parseJWT\<close> and \<^verbatim>\<open>Verify\<close> return.\<close>

datatype jwt_error =
    ParseSignedFailed string
  | WrongPartCount nat
  | PayloadNotBase64 string

datatype verify_error =
    MalformedJWT jwt_error
  | UnmarshalClaimsFailed string
  | IssuerMismatch string string
  | AudienceMismatch string "string list"
  | ConfigurationError
  | Expired time
  | UnsupportedAlgorithm "string list" "string list"
  | GetKeysFailed string
  | NoMatchingKey "string set" "JSONWebKey list"
  | SignatureVerificationFailed "string list option"
  | InternalPayloadMismatch
  | NonceMismatch string string

subsection \<open>Operations\<close>

definition issuerGoogleAccounts :: string where
  "issuerGoogleAccounts = ''https://accounts.google.com''"

definition issuerGoogleAccountsNoScheme :: string where
  "issuerGoogleAccountsNoScheme = ''accounts.google.com''"

definition jose_RS256 :: string where
  "jose_RS256 = ''RS256''"

definition newVerifier :: "'ks \<Rightarrow> VerificationConfig \<Rightarrow> string \<Rightarrow> 'ks IDTokenVerifier" where
  "newVerifier ks c iss =
     \<lparr>keySet = ks,
      cfg = (if length (SupportedSigningAlgs c) = 0
             then c\<lparr>SupportedSigningAlgs := [jose_RS256]\<rparr> else c),
      issuer = iss\<rparr>"

text \<open>\<^verbatim>\<open>strings.Split(p, ".")\<close>: the pieces between the dots; one (empty) piece for \<open>''''\<close>.\<close>

fun strings_Split_dot :: "string \<Rightarrow> string list" where
  "strings_Split_dot [] = [[]]"
| "strings_Split_dot (c # cs) =
     (if c = CHR ''.'' then [] # strings_Split_dot cs
      else (case strings_Split_dot cs of
              [] \<Rightarrow> [[c]]
            | p # ps \<Rightarrow> (c # p) # ps))"

definition parseJWT :: "'ks env \<Rightarrow> string \<Rightarrow> jwt_error + string" where
  "parseJWT e p =
     (let parts = strings_Split_dot p in
      if length parts < 2 then Inl (WrongPartCount (length parts))
      else (case base64_DecodeString e (parts ! 1) of
              Inl err \<Rightarrow> Inl (PayloadNotBase64 err)
            | Inr payload \<Rightarrow> Inr payload))"

fun contains :: "string list \<Rightarrow> string \<Rightarrow> bool" where
  "contains [] ele = False"
| "contains (s # sli) ele = (if s = ele then True else contains sli ele)"

text \<open>
  The loop over \<^verbatim>\<open>jws.Signatures\<close>: the key IDs of the signatures with a supported algorithm
  (a Go map used as a set), and the other algorithms for the error text.
\<close>

fun collect_keyIDs ::
  "string list \<Rightarrow> Signature list \<Rightarrow> string set \<Rightarrow> string list \<Rightarrow> string set \<times> string list"
where
  "collect_keyIDs algs [] keyIDs gotAlgsForErrLog = (keyIDs, gotAlgsForErrLog)"
| "collect_keyIDs algs (sig # sigs) keyIDs gotAlgsForErrLog =
     (if length algs = 0 \<or> contains algs (Algorithm (Header sig))
      then collect_keyIDs algs sigs (insert (Header.KeyID (Header sig)) keyIDs) gotAlgsForErrLog
      else collect_keyIDs algs sigs keyIDs (gotAlgsForErrLog @ [Algorithm (Header sig)]))"

text \<open>The loop over \<^verbatim>\<open>allKeys\<close>: the keys whose ID was collected, in their order.\<close>

fun select_keys :: "string set \<Rightarrow> JSONWebKey list \<Rightarrow> JSONWebKey list" where
  "select_keys keyIDs [] = []"
| "select_keys keyIDs (k # allKeys) =
     (if JSONWebKey.KeyID k \<notin> keyIDs then select_keys keyIDs allKeys
      else k # select_keys keyIDs allKeys)"

text \<open>
  The loop over the candidate keys: an error is added to the aggregate and the loop goes on;
  the first key that verifies sets the payload and breaks.
\<close>

fun try_keys ::
  "'ks env \<Rightarrow> JSONWebSignature \<Rightarrow> JSONWebKey list \<Rightarrow> string \<Rightarrow> xerrors \<Rightarrow> string \<times> xerrors"
where
  "try_keys e jws [] gotPayload xerr = (gotPayload, xerr)"
| "try_keys e jws (key # keys) gotPayload xerr =
     (case jws_Verify e jws key of
        Inl err \<Rightarrow> try_keys e jws keys gotPayload (xerrors_Add xerr err)
      | Inr p \<Rightarrow> (p, xerr))"

text \<open>
  \<^verbatim>\<open>Verify\<close> returns its result, the key set's state afterwards, and the number of calls of
  \<^verbatim>\<open>keySet.Keys\<close> it made.
\<close>

definition Verify ::
  "'ks env \<Rightarrow> 'ks IDTokenVerifier \<Rightarrow> string \<Rightarrow> (verify_error + IDToken) \<times> 'ks \<times> nat"
where
  "Verify e v rawIDToken =
    (case jose_ParseSigned e rawIDToken of
       Inl err \<Rightarrow> (Inl (MalformedJWT (ParseSignedFailed err)), keySet v, 0)
     | Inr jws \<Rightarrow>
    (case parseJWT e rawIDToken of
       Inl err \<Rightarrow> (Inl (MalformedJWT err), keySet v, 0)
     | Inr payload \<Rightarrow>
    (case json_Unmarshal e payload of
       Inl err \<Rightarrow> (Inl (UnmarshalClaimsFailed err), keySet v, 0)
     | Inr unmarshalled \<Rightarrow>
    (let token = unmarshalled\<lparr>claims := payload\<rparr> in
     if Issuer token \<noteq> issuer v
        \<and> \<not> (issuer v = issuerGoogleAccounts \<and> Issuer token = issuerGoogleAccountsNoScheme)
     then (Inl (IssuerMismatch (issuer v) (Issuer token)), keySet v, 0)
     else if ClientID (cfg v) = ''''
     then (Inl ConfigurationError, keySet v, 0)
     else if \<not> contains (Audience token) (ClientID (cfg v))
     then (Inl (AudienceMismatch (ClientID (cfg v)) (Audience token)), keySet v, 0)
     else
    (let now = (case Now (cfg v) of None \<Rightarrow> time_Now e | Some f \<Rightarrow> f) in
     if Expiry token < now ()
     then (Inl (Expired (Expiry token)), keySet v, 0)
     else
    (case collect_keyIDs (SupportedSigningAlgs (cfg v)) (Signatures jws) {} [] of
       (keyIDs, gotAlgsForErrLog) \<Rightarrow>
     if keyIDs = {}
     then (Inl (UnsupportedAlgorithm (SupportedSigningAlgs (cfg v)) gotAlgsForErrLog),
           keySet v, 0)
     else
    (case keySet_Keys e (keySet v) of
       (Inl err, ks') \<Rightarrow> (Inl (GetKeysFailed err), ks', 1)
     | (Inr allKeys, ks') \<Rightarrow>
    (let keys = select_keys keyIDs allKeys in
     if length keys = 0
     then (Inl (NoMatchingKey keyIDs allKeys), ks', 1)
     else
    (case try_keys e jws keys [] xerrors_New of
       (gotPayload, xerr) \<Rightarrow>
     if length gotPayload = 0
     then (Inl (SignatureVerificationFailed (xerrors_ErrorOrNil xerr)), ks', 1)
     else if gotPayload \<noteq> payload
     then (Inl InternalPayloadMismatch, ks', 1)
     else if ClaimNonce (cfg v) \<noteq> '''' \<and> Nonce token \<noteq> ClaimNonce (cfg v)
     then (Inl (NonceMismatch (Nonce token) (ClaimNonce (cfg v))), ks', 1)
     else (Inr token, ks', 1))))))))))"

subsection \<open>The checks of \<^verbatim>\<open>Verify\<close>, one by one\<close>

text \<open>
  The conditions under which a token reaches, and passes, each check of the pipeline. They
  are used to state what \<^verbatim>\<open>Verify\<close> returns.
\<close>

definition clock :: "'ks env \<Rightarrow> 'ks IDTokenVerifier \<Rightarrow> time" where
  "clock e v = (case Now (cfg v) of None \<Rightarrow> time_Now e () | Some f \<Rightarrow> f ())"

definition parsed ::
  "'ks env \<Rightarrow> string \<Rightarrow> JSONWebSignature \<Rightarrow> string \<Rightarrow> IDToken \<Rightarrow> bool"
where
  "parsed e raw jws payload token \<longleftrightarrow>
     jose_ParseSigned e raw = Inr jws \<and> parseJWT e raw = Inr payload \<and>
     map_sum id (\<lambda>u. u\<lparr>claims := payload\<rparr>) (json_Unmarshal e payload) = Inr token"

definition issuer_ok :: "'ks IDTokenVerifier \<Rightarrow> IDToken \<Rightarrow> bool" where
  "issuer_ok v token \<longleftrightarrow>
     Issuer token = issuer v \<or>
     (issuer v = ''https://accounts.google.com'' \<and> Issuer token = ''accounts.google.com'')"

definition audience_ok :: "'ks IDTokenVerifier \<Rightarrow> IDToken \<Rightarrow> bool" where
  "audience_ok v token \<longleftrightarrow>
     ClientID (cfg v) \<noteq> '''' \<and> ClientID (cfg v) \<in> set (Audience token)"

definition expiry_ok :: "'ks env \<Rightarrow> 'ks IDTokenVerifier \<Rightarrow> IDToken \<Rightarrow> bool" where
  "expiry_ok e v token \<longleftrightarrow> \<not> Expiry token < clock e v"

definition algorithms :: "JSONWebSignature \<Rightarrow> string list" where
  "algorithms jws = map (\<lambda>sig. Algorithm (Header sig)) (Signatures jws)"

definition is_IssuerMismatch :: "verify_error + IDToken \<Rightarrow> bool" where
  "is_IssuerMismatch r = (case r of Inl (IssuerMismatch _ _) \<Rightarrow> True | _ \<Rightarrow> False)"

definition is_AudienceMismatch :: "verify_error + IDToken \<Rightarrow> bool" where
  "is_AudienceMismatch r = (case r of Inl (AudienceMismatch _ _) \<Rightarrow> True | _ \<Rightarrow> False)"

definition is_Expired :: "verify_error + IDToken \<Rightarrow> bool" where
  "is_Expired r = (case r of Inl (Expired _) \<Rightarrow> True | _ \<Rightarrow> False)"

definition is_UnsupportedAlgorithm :: "verify_error + IDToken \<Rightarrow> bool" where
  "is_UnsupportedAlgorithm r =
     (case r of Inl (UnsupportedAlgorithm _ _) \<Rightarrow> True | _ \<Rightarrow> False)"

definition is_NonceMismatch :: "verify_error + IDToken \<Rightarrow> bool" where
  "is_NonceMismatch r = (case r of Inl (NonceMismatch _ _) \<Rightarrow> True | _ \<Rightarrow> False)"

text \<open>
  The key loop: the key IDs that \<^verbatim>\<open>Verify\<close> collects, the candidate keys it selects when
  it gets as far as that, and whether one of them verifies the signature with the payload
  parsed before.
\<close>

definition keyIDs_of :: "'ks IDTokenVerifier \<Rightarrow> JSONWebSignature \<Rightarrow> string set" where
  "keyIDs_of v jws = fst (collect_keyIDs (SupportedSigningAlgs (cfg v)) (Signatures jws) {} [])"

definition candidate_keys ::
  "'ks env \<Rightarrow> 'ks IDTokenVerifier \<Rightarrow> JSONWebSignature \<Rightarrow> JSONWebKey list option"
where
  "candidate_keys e v jws =
     (if keyIDs_of v jws = {} then None
      else (case fst (keySet_Keys e (keySet v)) of
              Inl err \<Rightarrow> None
            | Inr allKeys \<Rightarrow> Some (select_keys (keyIDs_of v jws) allKeys)))"

definition signature_ok ::
  "'ks env \<Rightarrow> 'ks IDTokenVerifier \<Rightarrow> JSONWebSignature \<Rightarrow> string \<Rightarrow> bool"
where
  "signature_ok e v jws payload \<longleftrightarrow>
     (case candidate_keys e v jws of
        None \<Rightarrow> False
      | Some keys \<Rightarrow> payload \<noteq> [] \<and> fst (try_keys e jws keys [] xerrors_New) = payload)"

text \<open>The error of each key of a list of keys that all fail, in the order of the keys.\<close>

definition key_errors :: "'ks env \<Rightarrow> JSONWebSignature \<Rightarrow> JSONWebKey list \<Rightarrow> string list" where
  "key_errors e jws keys = map (\<lambda>k. projl (jws_Verify e jws k)) keys"

text \<open>The same verifier with no nonce configured.\<close>

definition without_nonce :: "'ks IDTokenVerifier \<Rightarrow> 'ks IDTokenVerifier" where
  "without_nonce v = v\<lparr>cfg := (cfg v)\<lparr>ClaimNonce := ''''\<rparr>\<rparr>"

text \<open>The same tokens with the nonce claim replaced by \<open>n\<close>.\<close>

definition with_nonce_claim :: "string \<Rightarrow> 'ks env \<Rightarrow> 'ks env" where
  "with_nonce_claim n e =
     e\<lparr>json_Unmarshal := (\<lambda>p. map_sum id (\<lambda>u. u\<lparr>Nonce := n\<rparr>) (json_Unmarshal e p))\<rparr>"

subsection \<open>A test provider\<close>

text \<open>
  One signed token of a provider with the key \<open>good\<close>, in the manner of the repository's
  test provider: the raw token \<open>hdr.cGF5.sig\<close> has the payload \<open>pay\<close> with the claims
  \<open>ex_claims\<close>. The key set is a fixed list of keys.
\<close>

definition ex_raw :: string where
  "ex_raw = ''hdr.cGF5.sig''"

definition ex_jws :: JSONWebSignature where
  "ex_jws = \<lparr>Signatures = [\<lparr>Header = \<lparr>Algorithm = ''RS256'', KeyID = ''kid1''\<rparr>\<rparr>],
             protected = ''hdr''\<rparr>"

definition ex_claims :: IDToken where
  "ex_claims = \<lparr>Issuer = ''https://issuer.example'', Subject = ''subject1'',
                Audience = [''clientID1''], Expiry = 1000, Nonce = ''nonce1'', claims = ''''\<rparr>"

definition ex_token :: IDToken where
  "ex_token = ex_claims\<lparr>claims := ''pay''\<rparr>"

definition ex_env :: "JSONWebKey list env" where
  "ex_env =
     \<lparr>jose_ParseSigned =
        (\<lambda>raw. if raw = ex_raw then Inr ex_jws else Inl ''compact JWS format must have three parts''),
      base64_DecodeString =
        (\<lambda>s. if s = ''cGF5'' then Inr ''pay'' else Inl ''illegal base64 data''),
      json_Unmarshal =
        (\<lambda>p. if p = ''pay'' then Inr ex_claims else Inl ''invalid character''),
      time_Now = (\<lambda>_. 500),
      keySet_Keys = (\<lambda>ks. (Inr ks, ks)),
      jws_Verify =
        (\<lambda>jws k. if Key k = ''good'' then Inr ''pay''
                  else Inl (''verification error with key '' @ Key k))\<rparr>"

definition ex_good_key :: JSONWebKey where
  "ex_good_key = \<lparr>KeyID = ''kid1'', Key = ''good''\<rparr>"

definition ex_cfg :: VerificationConfig where
  "ex_cfg = \<lparr>ClientID = ''clientID1'', ClaimNonce = ''nonce1'', SupportedSigningAlgs = [],
             Now = None\<rparr>"

definition ex_issuer :: string where
  "ex_issuer = ''https://issuer.example''"

definition ex_verifier_at :: "time \<Rightarrow> JSONWebKey list IDTokenVerifier" where
  "ex_verifier_at t = newVerifier [ex_good_key] (ex_cfg\<lparr>Now := Some (\<lambda>_. t)\<rparr>) ex_issuer"

definition ex_verifier :: "JSONWebKey list IDTokenVerifier" where
  "ex_verifier = newVerifier [ex_good_key] ex_cfg ex_issuer"

text \<open>Verifiers of the test provider with another allow-list, nonce or key set.\<close>

definition ex_verifier_algs :: "string list \<Rightarrow> string \<Rightarrow> JSONWebKey list IDTokenVerifier" where
  "ex_verifier_algs algs iss =
     newVerifier [ex_good_key] (ex_cfg\<lparr>SupportedSigningAlgs := algs\<rparr>) iss"

definition ex_verifier_nonce :: "string \<Rightarrow> JSONWebKey list IDTokenVerifier" where
  "ex_verifier_nonce n = newVerifier [ex_good_key] (ex_cfg\<lparr>ClaimNonce := n\<rparr>) ex_issuer"

definition ex_old_key :: "string \<Rightarrow> JSONWebKey" where
  "ex_old_key s = \<lparr>KeyID = ''kid1'', Key = s\<rparr>"

definition ex_verifier_keys :: "JSONWebKey list \<Rightarrow> JSONWebKey list IDTokenVerifier" where
  "ex_verifier_keys keys = newVerifier keys ex_cfg ex_issuer"

section \<open>The token source (login/token_src.go)\<close>

subsection \<open>Data model\<close>

text \<open>
  Modelled from the spec: the \<^verbatim>\<open>Token\<close> struct is declared outside the files at hand. It is
  the Token of the data model, three opaque strings, as the tests of the token source build
  it.
\<close>

record Token =
  AccessToken :: string
  RefreshToken :: string
  IDToken :: string

text \<open>
  Modelled from the spec: the states of the state machine of \<^verbatim>\<open>OIDCToken\<close>, which is not
  among the files at hand (only its tests are).
\<close>

datatype source_state =
    CacheLookup
  | ValidCacheHit
  | SilentRefresh
  | InteractiveLogin
  | Persist
  | Done

text \<open>
  Modelled from the spec: what a call of \<^verbatim>\<open>OIDCToken\<close> does that can be observed from
  outside, in the order in which it happens: the states it enters and the calls it makes to
  its collaborators.
\<close>

datatype event =
    Entered source_state
  | Verify_call string
  | Refresh_call string
  | OpenBrowser_call string
  | Exchange_call string
  | SaveToken_call Token

text \<open>
  Modelled from the spec: the errors of the token source in the spec's taxonomy: the
  browser could not be opened, the wait for the redirect was cancelled, CallbackError (the
  returned state is not the generated one), TokenExchangeError and CacheError.
\<close>

datatype source_error =
    OpenBrowserFailed string
  | Cancelled string
  | CallbackError
  | TokenExchangeError string
  | CacheError string

text \<open>
  Modelled from the spec: the collaborators of \<^verbatim>\<open>OIDCTokenSource\<close>, as functions. The cache
  has a state of type \<open>'c\<close>; \<^verbatim>\<open>Token()\<close> returns an error, no token or a token, and
  \<^verbatim>\<open>SaveToken\<close> returns its error, if any, and the next state. The verifier is the
  \<^verbatim>\<open>Verifier\<close> interface of verify.go with the session nonce pinned. The two exchanges
  against the provider's token endpoint return the text of the failure (a non-success
  response or a transport error) or the token set. The wait for the redirect returns the
  cancellation or the \<open>code\<close> and \<open>state\<close> of the redirect that answers the opened URL.
\<close>

record 'c source =
  cache_Token :: "'c \<Rightarrow> string + Token option"
  cache_SaveToken :: "'c \<Rightarrow> Token \<Rightarrow> string option \<times> 'c"
  verifier_Verify :: "string \<Rightarrow> verify_error + IDToken"
  refresh_exchange :: "string \<Rightarrow> string + Token"
  genRandToken :: "unit \<Rightarrow> string"
  authCodeURL :: "string \<Rightarrow> string"
  openBrowser :: "string \<Rightarrow> string option"
  callback_wait :: "string \<Rightarrow> string + string \<times> string"
  code_exchange :: "string \<Rightarrow> string + Token"

subsection \<open>Operations\<close>

text \<open>
  Modelled from the spec: the state Persist, which is not among the files at hand. A path
  that produced a new Token calls \<^verbatim>\<open>SaveToken\<close> before it returns, and a save failure is
  returned in place of the Token.
\<close>

definition persist ::
  "'c source \<Rightarrow> 'c \<Rightarrow> event list \<Rightarrow> Token \<Rightarrow> (source_error + Token) \<times> 'c \<times> event list"
where
  "persist s c log tok =
     (case cache_SaveToken s c tok of
        (Some err, c') \<Rightarrow>
          (Inl (CacheError err), c', log @ [Entered Persist, SaveToken_call tok, Entered Done])
      | (None, c') \<Rightarrow>
          (Inr tok, c', log @ [Entered Persist, SaveToken_call tok, Entered Done]))"

text \<open>
  Modelled from the spec: the state InteractiveLogin, which is not among the files at hand.
  A fresh state value is generated, the authorization URL is built from it and opened in
  the browser (a failure aborts), the redirect is awaited, a redirect with another state is
  rejected, the code is exchanged (a failure is terminal), and the exchanged Token goes to
  Persist.
\<close>

definition interactiveLogin ::
  "'c source \<Rightarrow> 'c \<Rightarrow> event list \<Rightarrow> (source_error + Token) \<times> 'c \<times> event list"
where
  "interactiveLogin s c log =
     (let state = genRandToken s ();
          url = authCodeURL s state;
          log1 = log @ [Entered InteractiveLogin, OpenBrowser_call url]
      in case openBrowser s url of
           Some err \<Rightarrow> (Inl (OpenBrowserFailed err), c, log1 @ [Entered Done])
         | None \<Rightarrow>
        (case callback_wait s url of
           Inl err \<Rightarrow> (Inl (Cancelled err), c, log1 @ [Entered Done])
         | Inr (code, returned) \<Rightarrow>
             if returned \<noteq> state then (Inl CallbackError, c, log1 @ [Entered Done])
             else (case code_exchange s code of
                     Inl err \<Rightarrow>
                       (Inl (TokenExchangeError err), c,
                        log1 @ [Exchange_call code, Entered Done])
                   | Inr tok \<Rightarrow> persist s c (log1 @ [Exchange_call code]) tok)))"

text \<open>
  Modelled from the spec: the state SilentRefresh, which is not among the files at hand.
  The cached refresh token is exchanged at the token endpoint; on a non-success response,
  or when the new ID Token fails verification, the flow falls through to InteractiveLogin;
  otherwise the new Token goes to Persist.
\<close>

definition silentRefresh ::
  "'c source \<Rightarrow> 'c \<Rightarrow> event list \<Rightarrow> Token \<Rightarrow> (source_error + Token) \<times> 'c \<times> event list"
where
  "silentRefresh s c log cached =
     (let log1 = log @ [Entered SilentRefresh, Refresh_call (RefreshToken cached)]
      in case refresh_exchange s (RefreshToken cached) of
           Inl err \<Rightarrow> interactiveLogin s c log1
         | Inr tok \<Rightarrow>
             (case verifier_Verify s (IDToken tok) of
                Inl err \<Rightarrow> interactiveLogin s c (log1 @ [Verify_call (IDToken tok)])
              | Inr idToken \<Rightarrow> persist s c (log1 @ [Verify_call (IDToken tok)]) tok))"

text \<open>
  Modelled from the spec: \<^verbatim>\<open>OIDCTokenSource.OIDCToken\<close>, which is not among the files at hand.
  CacheLookup: an error or an absent Token routes to InteractiveLogin. ValidCacheHit: the
  cached Token's ID Token is verified, and on success the cached Token is returned with no
  cache write and no provider call. A verification failure that is a nonce mismatch enters
  SilentRefresh, any other one routes to InteractiveLogin. The result is the Token or the
  error, the cache's state afterwards, and the events of the call.
\<close>

definition OIDCToken ::
  "'c source \<Rightarrow> 'c \<Rightarrow> (source_error + Token) \<times> 'c \<times> event list"
where
  "OIDCToken s c =
     (case cache_Token s c of
        Inl err \<Rightarrow> interactiveLogin s c [Entered CacheLookup]
      | Inr None \<Rightarrow> interactiveLogin s c [Entered CacheLookup]
      | Inr (Some cached) \<Rightarrow>
          (let log = [Entered CacheLookup, Entered ValidCacheHit, Verify_call (IDToken cached)]
           in case verifier_Verify s (IDToken cached) of
                Inr idToken \<Rightarrow> (Inr cached, c, log @ [Entered Done])
              | Inl err \<Rightarrow>
                  if is_NonceMismatch (Inl err) then silentRefresh s c log cached
                  else interactiveLogin s c log))"

text \<open>
  Modelled from the spec: the scrub operation \<^verbatim>\<open>clearIDToken\<close>, which is not among the files
  at hand. It reads the cached Token, blanks only its IDToken field and saves it again; the
  result is the error of the save, if any, the cache's state afterwards and the Token that
  was handed to \<^verbatim>\<open>SaveToken\<close>. The spec describes the operation on a cached Token only:
  where the cache has none, or fails, there is no result.
\<close>

definition clearIDToken :: "'c source \<Rightarrow> 'c \<Rightarrow> (string option \<times> 'c \<times> Token) option" where
  "clearIDToken s c =
     (case cache_Token s c of
        Inl err \<Rightarrow> None
      | Inr None \<Rightarrow> None
      | Inr (Some cached) \<Rightarrow>
          (let scrubbed = cached\<lparr>IDToken := ''''\<rparr>
           in case cache_SaveToken s c scrubbed of (r, c') \<Rightarrow> Some (r, c', scrubbed)))"


text \<open>The states entered in a call, in their order.\<close>

fun entered :: "event list \<Rightarrow> source_state list" where
  "entered [] = []"
| "entered (Entered st # log) = st # entered log"
| "entered (ev # log) = entered log"

subsection \<open>A test token source\<close>

text \<open>
  The token source of the repository's tests, with the session nonce \<open>n\<close> pinned: the cache
  holds at most one Token, the verifier is \<^verbatim>\<open>Verify\<close> of the test provider, the refresh
  exchange is answered with status 400, the browser's redirect carries \<open>code1\<close> and the
  generated state, and the exchange of \<open>code1\<close> gives \<open>testToken\<close>.
\<close>

definition testToken :: Token where
  "testToken = \<lparr>AccessToken = ''access1'', RefreshToken = ''refresh1'', IDToken = ''idtoken1''\<rparr>"

definition ex_source :: "string \<Rightarrow> Token option source" where
  "ex_source n =
     \<lparr>cache_Token = (\<lambda>c. Inr c),
      cache_SaveToken = (\<lambda>c tok. (None, Some tok)),
      verifier_Verify = (\<lambda>raw. fst (Verify ex_env (ex_verifier_nonce n) raw)),
      refresh_exchange = (\<lambda>r. Inl ''400 Bad Request''),
      genRandToken = (\<lambda>_. ''secret_token''),
      authCodeURL = (\<lambda>state. ''https://issuer.example/auth1?state='' @ state),
      openBrowser = (\<lambda>url. None),
      callback_wait = (\<lambda>url. Inr (''code1'', ''secret_token'')),
      code_exchange =
        (\<lambda>code. if code = ''code1'' then Inr testToken else Inl ''503 Service Unavailable'')\<rparr>"

text \<open>A cached Token with the ID Token \<open>ex_raw\<close> and the access token \<open>a\<close>.\<close>

definition ex_cached :: "string \<Rightarrow> Token" where
  "ex_cached a = \<lparr>AccessToken = a, RefreshToken = ''refresh1'', IDToken = ex_raw\<rparr>"

section \<open>Properties of \<^verbatim>\<open>Verify\<close>\<close>

lemma contains_iff: "contains sli ele \<longleftrightarrow> ele \<in> set sli"
  by (induction sli) auto

lemma parsedD:
  assumes "parsed e raw jws payload token"
  obtains u where "jose_ParseSigned e raw = Inr jws" and "parseJWT e raw = Inr payload"
    and "json_Unmarshal e payload = Inr u" and "token = u\<lparr>claims := payload\<rparr>"
  using assms unfolding parsed_def by (cases "json_Unmarshal e payload") auto

lemma ex_parseJWT: "parseJWT ex_env ex_raw = Inr ''pay''"
  by (simp add: parseJWT_def ex_env_def ex_raw_def)

lemma ex_parsed: "parsed ex_env ex_raw ex_jws ''pay'' ex_token"
  by (simp add: parsed_def ex_parseJWT) (simp add: ex_env_def ex_token_def)

lemma ex_env_simps:
  "jose_ParseSigned ex_env ex_raw = Inr ex_jws"
  "json_Unmarshal ex_env ''pay'' = Inr ex_claims"
  "time_Now ex_env u = 500"
  "keySet_Keys ex_env ks = (Inr ks, ks)"
  "jws_Verify ex_env jws k =
     (if Key k = ''good'' then Inr ''pay'' else Inl (''verification error with key '' @ Key k))"
  by (simp_all add: ex_env_def)

lemmas ex_simps = ex_env_simps ex_parseJWT ex_jws_def ex_claims_def ex_token_def ex_cfg_def
  ex_issuer_def newVerifier_def jose_RS256_def ex_good_key_def xerrors_New_def xerrors_Add_def
  xerrors_ErrorOrNil_def issuerGoogleAccounts_def issuerGoogleAccountsNoScheme_def

lemmas Verify_unfold = Verify_def Let_def issuer_ok_def audience_ok_def expiry_ok_def clock_def
  issuerGoogleAccounts_def issuerGoogleAccountsNoScheme_def contains_iff

lemma ex_Verify_at:
  "t \<le> 1000 \<Longrightarrow> Verify ex_env (ex_verifier_at t) ex_raw = (Inr ex_token, [ex_good_key], 1)"
  by (simp add: Verify_def ex_verifier_at_def ex_simps)

subsection \<open>The issuer check\<close>

text \<open>
  Claim C9. Once the raw token is parsed, \<^verbatim>\<open>Verify\<close> fails with the issuer error exactly
  when the token's issuer is not the configured one and the pair is not the one exception:
  the token says \<open>accounts.google.com\<close> and the verifier is configured with
  \<open>https://accounts.google.com\<close>. The error carries both issuers.
\<close>

theorem Verify_issuer_check:
  assumes "parsed e raw jws payload token"
  shows "(is_IssuerMismatch (fst (Verify e v raw)) \<longleftrightarrow>
           Issuer token \<noteq> issuer v \<and>
           \<not> (Issuer token = ''accounts.google.com'' \<and>
              issuer v = ''https://accounts.google.com'')) \<and>
         (is_IssuerMismatch (fst (Verify e v raw)) \<longrightarrow>
            fst (Verify e v raw) = Inl (IssuerMismatch (issuer v) (Issuer token)))"
proof -
  from assms obtain u where "jose_ParseSigned e raw = Inr jws"
    and "parseJWT e raw = Inr payload"
    and "json_Unmarshal e payload = Inr u" and "token = u\<lparr>claims := payload\<rparr>"
    by (rule parsedD)
  then show ?thesis
    by (auto simp add: Verify_unfold is_IssuerMismatch_def split: prod.splits sum.splits)
qed

theorem Verify_issuer_check_witness:
  "parsed ex_env ex_raw ex_jws ''pay'' ex_token \<and>
   fst (Verify ex_env (newVerifier [ex_good_key] ex_cfg ''https://other.example'') ex_raw)
     = Inl (IssuerMismatch ''https://other.example'' ''https://issuer.example'')"
proof -
  have i: "issuer (newVerifier [ex_good_key] ex_cfg ''https://other.example'')
             = ''https://other.example''"
    "Issuer ex_token = ''https://issuer.example''"
    by (simp_all add: ex_simps)
  from Verify_issuer_check [OF ex_parsed, of "newVerifier [ex_good_key] ex_cfg ''https://other.example''"]
  show ?thesis using ex_parsed by (simp add: i)
qed

subsection \<open>The audience check\<close>

text \<open>
  Claim C4. For a token that is parsed and passes the issuer check: with no ClientID
  configured \<^verbatim>\<open>Verify\<close> fails with the configuration error, and with a ClientID it fails
  with the audience error exactly when the token's audience does not contain the ClientID.
\<close>

theorem Verify_audience_check:
  assumes "parsed e raw jws payload token" and "issuer_ok v token"
  shows "(ClientID (cfg v) = '''' \<longrightarrow> fst (Verify e v raw) = Inl ConfigurationError) \<and>
         (ClientID (cfg v) \<noteq> '''' \<longrightarrow>
            (is_AudienceMismatch (fst (Verify e v raw))
               \<longleftrightarrow> ClientID (cfg v) \<notin> set (Audience token))) \<and>
         (ClientID (cfg v) \<noteq> '''' \<and> ClientID (cfg v) \<notin> set (Audience token) \<longrightarrow>
            fst (Verify e v raw)
              = Inl (AudienceMismatch (ClientID (cfg v)) (Audience token)))"
proof -
  from assms(1) obtain u where "jose_ParseSigned e raw = Inr jws"
    and "parseJWT e raw = Inr payload"
    and "json_Unmarshal e payload = Inr u" and "token = u\<lparr>claims := payload\<rparr>"
    by (rule parsedD)
  with assms(2) show ?thesis
    by (auto simp add: Verify_unfold is_AudienceMismatch_def split: prod.splits sum.splits)
qed

theorem Verify_audience_check_witness:
  "parsed ex_env ex_raw ex_jws ''pay'' ex_token \<and>
   issuer_ok (newVerifier [ex_good_key] (ex_cfg\<lparr>ClientID := ''''\<rparr>) ex_issuer) ex_token \<and>
   fst (Verify ex_env (newVerifier [ex_good_key] (ex_cfg\<lparr>ClientID := ''''\<rparr>) ex_issuer) ex_raw)
     = Inl ConfigurationError \<and>
   fst (Verify ex_env (newVerifier [ex_good_key] (ex_cfg\<lparr>ClientID := ''clientID2''\<rparr>) ex_issuer)
          ex_raw)
     = Inl (AudienceMismatch ''clientID2'' [''clientID1''])"
proof -
  have i: "issuer_ok (newVerifier [ex_good_key] (ex_cfg\<lparr>ClientID := c\<rparr>) ex_issuer) ex_token"
    for c by (simp add: issuer_ok_def ex_simps)
  have c: "ClientID (cfg (newVerifier [ex_good_key] (ex_cfg\<lparr>ClientID := c\<rparr>) ex_issuer)) = c"
    "Audience ex_token = [''clientID1'']" for c
    by (simp_all add: ex_simps)
  from Verify_audience_check [OF ex_parsed i, of "''''"]
    Verify_audience_check [OF ex_parsed i, of "''clientID2''"]
  show ?thesis using ex_parsed i by (simp add: c)
qed

subsection \<open>The expiry check\<close>

text \<open>
  The test of line 151 is \<^verbatim>\<open>token.Expiry.Time().Before(now())\<close>: for a token that is parsed
  and passes the issuer and audience checks, \<^verbatim>\<open>Verify\<close> returns the expiry error exactly
  when the token's expiry is strictly before the clock's time.
\<close>

lemma Verify_expiry_before:
  assumes "parsed e raw jws payload token" and "issuer_ok v token" and "audience_ok v token"
  shows "(is_Expired (fst (Verify e v raw)) \<longleftrightarrow> Expiry token < clock e v) \<and>
         (Expiry token < clock e v \<longrightarrow>
            fst (Verify e v raw) = Inl (Expired (Expiry token)))"
proof -
  from assms(1) obtain u where "jose_ParseSigned e raw = Inr jws"
    and "parseJWT e raw = Inr payload"
    and "json_Unmarshal e payload = Inr u" and "token = u\<lparr>claims := payload\<rparr>"
    by (rule parsedD)
  with assms(2,3) show ?thesis
    by (auto simp add: Verify_unfold is_Expired_def
        split: prod.splits sum.splits option.splits)
qed

lemma Verify_expiry_before_example:
  "parsed ex_env ex_raw ex_jws ''pay'' ex_token \<and> issuer_ok (ex_verifier_at 1001) ex_token \<and>
   audience_ok (ex_verifier_at 1001) ex_token \<and>
   fst (Verify ex_env (ex_verifier_at 1001) ex_raw) = Inl (Expired 1000)"
proof -
  have i: "issuer_ok (ex_verifier_at 1001) ex_token"
    by (simp add: issuer_ok_def ex_verifier_at_def ex_simps)
  have a: "audience_ok (ex_verifier_at 1001) ex_token"
    by (simp add: audience_ok_def ex_verifier_at_def ex_simps)
  have c: "clock ex_env (ex_verifier_at 1001) = 1001" "Expiry ex_token = 1000"
    by (simp_all add: clock_def ex_verifier_at_def ex_simps)
  from Verify_expiry_before [OF ex_parsed i a] show ?thesis
    using ex_parsed i a by (simp add: c)
qed

text \<open>
  Claim C2 asks that a token whose structural, issuer and audience checks pass is rejected as
  expired unless its expiry is strictly after the clock's time, so also when the two are
  equal. That is the rule of the ID Token validation that the documentation of \<^verbatim>\<open>Verify\<close>
  refers to. The code does not do this at the boundary: the token \<open>ex_raw\<close> expires at 1000,
  and with the clock at 1000 it passes the structural, issuer and audience checks, its expiry
  equals the clock's time, and \<^verbatim>\<open>Verify\<close> returns the token and no expiry error.
\<close>

theorem Verify_expiry_equal_accepted:
  "parsed ex_env ex_raw ex_jws ''pay'' ex_token \<and> issuer_ok (ex_verifier_at 1000) ex_token \<and>
   audience_ok (ex_verifier_at 1000) ex_token \<and>
   Expiry ex_token = clock ex_env (ex_verifier_at 1000) \<and>
   \<not> is_Expired (fst (Verify ex_env (ex_verifier_at 1000) ex_raw)) \<and>
   fst (Verify ex_env (ex_verifier_at 1000) ex_raw) = Inr ex_token"
proof -
  have i: "issuer_ok (ex_verifier_at 1000) ex_token"
    by (simp add: issuer_ok_def ex_verifier_at_def ex_simps)
  have a: "audience_ok (ex_verifier_at 1000) ex_token"
    by (simp add: audience_ok_def ex_verifier_at_def ex_simps)
  have c: "clock ex_env (ex_verifier_at 1000) = 1000" "Expiry ex_token = 1000"
    by (simp_all add: clock_def ex_verifier_at_def ex_simps)
  show ?thesis
    using ex_parsed i a by (simp add: c ex_Verify_at is_Expired_def)
qed

subsection \<open>The value of \<^verbatim>\<open>Verify\<close> after parsing\<close>

lemma try_keys_env:
  "jws_Verify e' = jws_Verify e \<Longrightarrow> try_keys e' jws keys p x = try_keys e jws keys p x"
  by (induction keys arbitrary: x) (auto split: sum.splits)

lemma without_nonce_simps:
  "keySet (without_nonce v) = keySet v"
  "issuer (without_nonce v) = issuer v"
  "ClientID (cfg (without_nonce v)) = ClientID (cfg v)"
  "Now (cfg (without_nonce v)) = Now (cfg v)"
  "SupportedSigningAlgs (cfg (without_nonce v)) = SupportedSigningAlgs (cfg v)"
  "ClaimNonce (cfg (without_nonce v)) = ''''"
  "issuer_ok (without_nonce v) token = issuer_ok v token"
  "clock e (without_nonce v) = clock e v"
  by (simp_all add: without_nonce_def issuer_ok_def clock_def)

lemma Verify_parse_error:
  "jose_ParseSigned e raw = Inl err \<Longrightarrow>
   Verify e v raw = (Inl (MalformedJWT (ParseSignedFailed err)), keySet v, 0)"
  "jose_ParseSigned e raw = Inr jws \<Longrightarrow> parseJWT e raw = Inl perr \<Longrightarrow>
   Verify e v raw = (Inl (MalformedJWT perr), keySet v, 0)"
  "jose_ParseSigned e raw = Inr jws \<Longrightarrow> parseJWT e raw = Inr payload \<Longrightarrow>
   json_Unmarshal e payload = Inl err \<Longrightarrow>
   Verify e v raw = (Inl (UnmarshalClaimsFailed err), keySet v, 0)"
  by (simp_all add: Verify_def)

lemma Verify_parsed:
  assumes "jose_ParseSigned e raw = Inr jws" and "parseJWT e raw = Inr payload"
    and "json_Unmarshal e payload = Inr u"
    and "collect_keyIDs (SupportedSigningAlgs (cfg v)) (Signatures jws) {} [] = (keyIDs, got)"
    and "keySet_Keys e (keySet v) = (r, ks')"
    and "try_keys e jws (select_keys keyIDs (projr r)) [] xerrors_New = (p, x)"
  shows "Verify e v raw =
    (let token = u\<lparr>claims := payload\<rparr> in
     if \<not> issuer_ok v token
     then (Inl (IssuerMismatch (issuer v) (Issuer token)), keySet v, 0)
     else if ClientID (cfg v) = ''''
     then (Inl ConfigurationError, keySet v, 0)
     else if ClientID (cfg v) \<notin> set (Audience token)
     then (Inl (AudienceMismatch (ClientID (cfg v)) (Audience token)), keySet v, 0)
     else if Expiry token < clock e v
     then (Inl (Expired (Expiry token)), keySet v, 0)
     else if keyIDs = {}
     then (Inl (UnsupportedAlgorithm (SupportedSigningAlgs (cfg v)) got), keySet v, 0)
     else if isl r
     then (Inl (GetKeysFailed (projl r)), ks', 1)
     else if select_keys keyIDs (projr r) = []
     then (Inl (NoMatchingKey keyIDs (projr r)), ks', 1)
     else if p = []
     then (Inl (SignatureVerificationFailed (xerrors_ErrorOrNil x)), ks', 1)
     else if p \<noteq> payload
     then (Inl InternalPayloadMismatch, ks', 1)
     else if ClaimNonce (cfg v) \<noteq> '''' \<and> Nonce token \<noteq> ClaimNonce (cfg v)
     then (Inl (NonceMismatch (Nonce token) (ClaimNonce (cfg v))), ks', 1)
     else (Inr token, ks', 1))"
proof (cases r)
  case (Inl err)
  with assms(1-5) show ?thesis
    by (simp add: Verify_unfold split: option.splits)
next
  case (Inr allKeys)
  with assms show ?thesis
    by (simp add: Verify_unfold split: option.splits)
qed

lemma with_nonce_claim_simps:
  "jose_ParseSigned (with_nonce_claim n e) = jose_ParseSigned e"
  "parseJWT (with_nonce_claim n e) raw = parseJWT e raw"
  "json_Unmarshal (with_nonce_claim n e) p
     = map_sum id (\<lambda>u. u\<lparr>Nonce := n\<rparr>) (json_Unmarshal e p)"
  "keySet_Keys (with_nonce_claim n e) = keySet_Keys e"
  "clock (with_nonce_claim n e) v = clock e v"
  by (simp_all add: with_nonce_claim_def parseJWT_def Let_def clock_def split: option.splits)

lemma try_keys_with_nonce_claim:
  "try_keys (with_nonce_claim n e) jws keys g x = try_keys e jws keys g x"
  by (rule try_keys_env) (simp add: with_nonce_claim_def)

lemma try_keys_all_fail:
  "\<forall>k \<in> set keys. isl (jws_Verify e jws k) \<Longrightarrow>
   try_keys e jws keys g x = (g, x @ key_errors e jws keys)"
  by (induction keys arbitrary: x)
     (auto simp add: key_errors_def xerrors_Add_def split: sum.splits)

lemma try_keys_first:
  "\<forall>k' \<in> set ks1. isl (jws_Verify e jws k') \<Longrightarrow> jws_Verify e jws k = Inr p \<Longrightarrow>
   try_keys e jws (ks1 @ k # ks2) g x = (p, x @ key_errors e jws ks1)"
  by (induction ks1 arbitrary: x)
     (auto simp add: key_errors_def xerrors_Add_def split: sum.splits)

lemma candidate_keysD:
  assumes "candidate_keys e v jws = Some keys"
  obtains keyIDs got allKeys ks' where
    "collect_keyIDs (SupportedSigningAlgs (cfg v)) (Signatures jws) {} [] = (keyIDs, got)"
    and "keyIDs \<noteq> {}" and "keySet_Keys e (keySet v) = (Inr allKeys, ks')"
    and "keys = select_keys keyIDs allKeys"
proof -
  obtain keyIDs got where
    col: "collect_keyIDs (SupportedSigningAlgs (cfg v)) (Signatures jws) {} [] = (keyIDs, got)"
    by force
  obtain r ks' where k: "keySet_Keys e (keySet v) = (r, ks')"
    by force
  from assms col k have "keyIDs \<noteq> {}" and "\<exists>allKeys. r = Inr allKeys \<and> keys = select_keys keyIDs allKeys"
    by (auto simp add: candidate_keys_def keyIDs_of_def split: if_splits sum.splits)
  with col k that show ?thesis by blast
qed

lemma collect_keyIDs_none:
  "algs \<noteq> [] \<Longrightarrow> set (map (\<lambda>sig. Algorithm (Header sig)) sigs) \<inter> set algs = {} \<Longrightarrow>
   collect_keyIDs algs sigs K G = (K, G @ map (\<lambda>sig. Algorithm (Header sig)) sigs)"
  by (induction sigs arbitrary: K G) (auto simp add: contains_iff)

lemma newVerifier_algs: "SupportedSigningAlgs (cfg (newVerifier ks c iss)) \<noteq> []"
  by (simp add: newVerifier_def)

subsection \<open>The algorithm allow-list\<close>

text \<open>
  Claim C3, as the code has it. Let the verifier be made by \<^verbatim>\<open>newVerifier\<close> and let every
  signature of the parsed token carry an algorithm outside the verifier's allow-list. Then
  \<^verbatim>\<open>Verify\<close> fails, it never calls \<^verbatim>\<open>keySet.Keys\<close> and leaves the key set as it was, and
  for a token that passes the structural, issuer, audience and expiry checks the error is
  UnsupportedAlgorithm, with the allow-list and the token's algorithms.
\<close>

theorem Verify_unsupported_algorithm:
  assumes "jose_ParseSigned e raw = Inr jws" and "v = newVerifier ks c iss"
    and "set (algorithms jws) \<inter> set (SupportedSigningAlgs (cfg v)) = {}"
  shows "isl (fst (Verify e v raw)) \<and> snd (Verify e v raw) = (keySet v, 0) \<and>
         (\<forall>payload token.
            parsed e raw jws payload token \<and> issuer_ok v token \<and> audience_ok v token \<and>
            expiry_ok e v token \<longrightarrow>
            fst (Verify e v raw)
              = Inl (UnsupportedAlgorithm (SupportedSigningAlgs (cfg v)) (algorithms jws)))"
proof -
  have "SupportedSigningAlgs (cfg v) \<noteq> []"
    using assms(2) by (simp add: newVerifier_algs)
  with assms(3) have col: "collect_keyIDs (SupportedSigningAlgs (cfg v)) (Signatures jws) {} []
      = ({}, algorithms jws)"
    by (simp add: collect_keyIDs_none algorithms_def)
  show ?thesis
    using assms(1) col
    by (auto simp add: Verify_unfold parsed_def split: prod.splits sum.splits option.splits)
qed

theorem Verify_unsupported_algorithm_witness:
  "jose_ParseSigned ex_env ex_raw = Inr ex_jws \<and>
   set (algorithms ex_jws) \<inter> set (SupportedSigningAlgs (cfg (ex_verifier_algs [''ES256''] ex_issuer))) = {} \<and>
   Verify ex_env (ex_verifier_algs [''ES256''] ex_issuer) ex_raw
     = (Inl (UnsupportedAlgorithm [''ES256''] [''RS256'']), [ex_good_key], 0)"
proof -
  let ?v = "ex_verifier_algs [''ES256''] ex_issuer"
  have v: "?v = newVerifier [ex_good_key] (ex_cfg\<lparr>SupportedSigningAlgs := [''ES256'']\<rparr>) ex_issuer"
    by (simp add: ex_verifier_algs_def)
  have a: "set (algorithms ex_jws) \<inter> set (SupportedSigningAlgs (cfg ?v)) = {}"
    by (simp add: algorithms_def ex_verifier_algs_def ex_simps)
  have p: "issuer_ok ?v ex_token" "audience_ok ?v ex_token" "expiry_ok ex_env ?v ex_token"
    by (simp_all add: issuer_ok_def audience_ok_def expiry_ok_def clock_def
        ex_verifier_algs_def ex_simps)
  have s: "SupportedSigningAlgs (cfg ?v) = [''ES256'']" "algorithms ex_jws = [''RS256'']"
    "keySet ?v = [ex_good_key]"
    by (simp_all add: algorithms_def ex_verifier_algs_def ex_simps)
  from Verify_unsupported_algorithm [OF ex_env_simps(1) v a] ex_parsed p s a
  show ?thesis
    by (metis ex_env_simps(1) prod.collapse)
qed

text \<open>
  The checks on the claims come first: the token \<open>ex_raw\<close> is signed with RS256 only, the
  verifier allows ES256 only and expects another issuer, and \<^verbatim>\<open>Verify\<close> fails with the issuer
  error, not with UnsupportedAlgorithm.
\<close>

theorem Verify_unsupported_algorithm_counterexample:
  "jose_ParseSigned ex_env ex_raw = Inr ex_jws \<and>
   set (algorithms ex_jws) \<inter> set (SupportedSigningAlgs (cfg (ex_verifier_algs [''ES256''] ''https://other.example''))) = {} \<and>
   fst (Verify ex_env (ex_verifier_algs [''ES256''] ''https://other.example'') ex_raw)
     = Inl (IssuerMismatch ''https://other.example'' ''https://issuer.example'')"
  by (simp add: Verify_def algorithms_def ex_verifier_algs_def ex_simps)

subsection \<open>The key loop\<close>

text \<open>
  Claim C6. For a token that reaches the key loop with the candidate keys \<open>keys\<close>: when no
  key verifies the signature, \<^verbatim>\<open>Verify\<close> fails with SignatureVerificationFailed, and the error
  holds the failure of every key, in the order of the keys. When a key verifies after keys
  that all failed, the loop ends there with that key's payload, whatever keys follow, and
  the result is decided by that payload.
\<close>

theorem Verify_signature_errors:
  assumes "parsed e raw jws payload token" and "issuer_ok v token" and "audience_ok v token"
    and "expiry_ok e v token" and "candidate_keys e v jws = Some keys" and "keys \<noteq> []"
  shows "((\<forall>k \<in> set keys. isl (jws_Verify e jws k)) \<longrightarrow>
            fst (Verify e v raw)
              = Inl (SignatureVerificationFailed (Some (key_errors e jws keys)))) \<and>
         (\<forall>ks1 k ks2 p.
            keys = ks1 @ k # ks2 \<and> (\<forall>k' \<in> set ks1. isl (jws_Verify e jws k')) \<and>
            jws_Verify e jws k = Inr p \<longrightarrow>
            try_keys e jws keys [] xerrors_New = (p, key_errors e jws ks1) \<and>
            (p \<noteq> [] \<longrightarrow>
               fst (Verify e v raw) =
                 (if p \<noteq> payload then Inl InternalPayloadMismatch
                  else if ClaimNonce (cfg v) \<noteq> '''' \<and> Nonce token \<noteq> ClaimNonce (cfg v)
                  then Inl (NonceMismatch (Nonce token) (ClaimNonce (cfg v)))
                  else Inr token)))"
proof -
  from assms(1) obtain u where jws: "jose_ParseSigned e raw = Inr jws"
    and payload: "parseJWT e raw = Inr payload"
    and u: "json_Unmarshal e payload = Inr u" and token: "token = u\<lparr>claims := payload\<rparr>"
    by (rule parsedD)
  from assms(5) obtain keyIDs got allKeys ks' where
    col: "collect_keyIDs (SupportedSigningAlgs (cfg v)) (Signatures jws) {} [] = (keyIDs, got)"
    and k: "keyIDs \<noteq> {}" and keys: "keySet_Keys e (keySet v) = (Inr allKeys, ks')"
    and sel: "keys = select_keys keyIDs allKeys"
    by (rule candidate_keysD)
  have V: "fst (Verify e v raw) =
      (if p = [] then Inl (SignatureVerificationFailed (xerrors_ErrorOrNil x))
       else if p \<noteq> payload then Inl InternalPayloadMismatch
       else if ClaimNonce (cfg v) \<noteq> '''' \<and> Nonce token \<noteq> ClaimNonce (cfg v)
       then Inl (NonceMismatch (Nonce token) (ClaimNonce (cfg v)))
       else Inr token)"
    if "try_keys e jws keys [] xerrors_New = (p, x)" for p x
  proof -
    from that sel have
      tk: "try_keys e jws (select_keys keyIDs (projr (Inr allKeys :: string + JSONWebKey list))) [] xerrors_New = (p, x)"
      by simp
    from assms(2-4,6) k sel show ?thesis
      unfolding Verify_parsed [OF jws payload u col keys tk]
      by (simp add: Let_def token audience_ok_def expiry_ok_def)
  qed
  have 1: "fst (Verify e v raw) = Inl (SignatureVerificationFailed (Some (key_errors e jws keys)))"
    if "\<forall>k \<in> set keys. isl (jws_Verify e jws k)"
  proof -
    from that have "try_keys e jws keys [] xerrors_New = ([], key_errors e jws keys)"
      by (simp add: try_keys_all_fail xerrors_New_def)
    from V [OF this] assms(6) show ?thesis
      by (simp add: xerrors_ErrorOrNil_def key_errors_def)
  qed
  have 2: "try_keys e jws keys [] xerrors_New = (p, key_errors e jws ks1) \<and>
            (p \<noteq> [] \<longrightarrow>
               fst (Verify e v raw) =
                 (if p \<noteq> payload then Inl InternalPayloadMismatch
                  else if ClaimNonce (cfg v) \<noteq> '''' \<and> Nonce token \<noteq> ClaimNonce (cfg v)
                  then Inl (NonceMismatch (Nonce token) (ClaimNonce (cfg v)))
                  else Inr token))"
    if "keys = ks1 @ k # ks2" and "\<forall>k' \<in> set ks1. isl (jws_Verify e jws k')"
      and "jws_Verify e jws k = Inr p" for ks1 k ks2 p
  proof -
    from that have t: "try_keys e jws keys [] xerrors_New = (p, key_errors e jws ks1)"
      by (simp add: try_keys_first xerrors_New_def)
    from V [OF t] t show ?thesis by simp
  qed
  from 1 2 show ?thesis by blast
qed

theorem Verify_signature_errors_witness:
  "parsed ex_env ex_raw ex_jws ''pay'' ex_token \<and>
   issuer_ok (ex_verifier_keys [ex_old_key ''old1'', ex_old_key ''old2'']) ex_token \<and>
   audience_ok (ex_verifier_keys [ex_old_key ''old1'', ex_old_key ''old2'']) ex_token \<and>
   expiry_ok ex_env (ex_verifier_keys [ex_old_key ''old1'', ex_old_key ''old2'']) ex_token \<and>
   candidate_keys ex_env (ex_verifier_keys [ex_old_key ''old1'', ex_old_key ''old2'']) ex_jws
     = Some [ex_old_key ''old1'', ex_old_key ''old2''] \<and>
   fst (Verify ex_env (ex_verifier_keys [ex_old_key ''old1'', ex_old_key ''old2'']) ex_raw)
     = Inl (SignatureVerificationFailed
         (Some [''verification error with key old1'', ''verification error with key old2''])) \<and>
   candidate_keys ex_env
       (ex_verifier_keys [ex_old_key ''old1'', ex_good_key, ex_old_key ''old2'']) ex_jws
     = Some [ex_old_key ''old1'', ex_good_key, ex_old_key ''old2''] \<and>
   try_keys ex_env ex_jws [ex_old_key ''old1'', ex_good_key, ex_old_key ''old2''] [] xerrors_New
     = (''pay'', [''verification error with key old1'']) \<and>
   fst (Verify ex_env
          (ex_verifier_keys [ex_old_key ''old1'', ex_good_key, ex_old_key ''old2'']) ex_raw)
     = Inr ex_token"
proof -
  let ?keys = "[ex_old_key ''old1'', ex_old_key ''old2'']"
  let ?v = "ex_verifier_keys ?keys"
  let ?keys2 = "[ex_old_key ''old1'', ex_good_key, ex_old_key ''old2'']"
  let ?v2 = "ex_verifier_keys ?keys2"
  have i: "issuer_ok (ex_verifier_keys ks) ex_token" for ks
    by (simp add: issuer_ok_def ex_verifier_keys_def ex_simps)
  have a: "audience_ok (ex_verifier_keys ks) ex_token" for ks
    by (simp add: audience_ok_def ex_verifier_keys_def ex_simps)
  have x: "expiry_ok ex_env (ex_verifier_keys ks) ex_token" for ks
    by (simp add: expiry_ok_def clock_def ex_verifier_keys_def ex_simps)
  have c: "candidate_keys ex_env ?v ex_jws = Some ?keys"
    by (simp add: candidate_keys_def keyIDs_of_def ex_verifier_keys_def ex_old_key_def ex_simps)
  have c2: "candidate_keys ex_env ?v2 ex_jws = Some ?keys2"
    by (simp add: candidate_keys_def keyIDs_of_def ex_verifier_keys_def ex_old_key_def ex_simps)
  have f: "\<forall>k \<in> set ?keys. isl (jws_Verify ex_env ex_jws k)"
    by (simp add: ex_old_key_def ex_simps)
  have k: "key_errors ex_env ex_jws ?keys
             = [''verification error with key old1'', ''verification error with key old2'']"
    by (simp add: key_errors_def ex_old_key_def ex_simps)
  have ne: "?keys \<noteq> []" "?keys2 \<noteq> []"
    by simp_all
  from Verify_signature_errors [OF ex_parsed i a x c ne(1), THEN conjunct1] f
  have "fst (Verify ex_env ?v ex_raw)
          = Inl (SignatureVerificationFailed (Some (key_errors ex_env ex_jws ?keys)))"
    by blast
  then have 1: "fst (Verify ex_env ?v ex_raw)
          = Inl (SignatureVerificationFailed
              (Some [''verification error with key old1'',
                     ''verification error with key old2'']))"
    by (simp only: k)
  have pre: "?keys2 = [ex_old_key ''old1''] @ ex_good_key # [ex_old_key ''old2''] \<and>
      (\<forall>k' \<in> set [ex_old_key ''old1'']. isl (jws_Verify ex_env ex_jws k')) \<and>
      jws_Verify ex_env ex_jws ex_good_key = Inr ''pay''"
    by (simp add: ex_old_key_def ex_simps)
  have k1: "key_errors ex_env ex_jws [ex_old_key ''old1'']
              = [''verification error with key old1'']"
    by (simp add: key_errors_def ex_old_key_def ex_simps)
  have n: "ClaimNonce (cfg ?v2) = ''nonce1''" "Nonce ex_token = ''nonce1''"
    by (simp_all add: ex_verifier_keys_def ex_simps)
  note T = Verify_signature_errors [OF ex_parsed i a x c2 ne(2), THEN conjunct2, rule_format,
      of "[ex_old_key ''old1'']" ex_good_key "[ex_old_key ''old2'']" "''pay''", OF pre]
  from T [THEN conjunct1]
  have 2: "try_keys ex_env ex_jws ?keys2 [] xerrors_New
             = (''pay'', [''verification error with key old1''])"
    by (simp only: k1)
  have p: "''pay'' \<noteq> ''''"
    by simp
  from T [THEN conjunct2, rule_format, OF p]
  have 3: "fst (Verify ex_env ?v2 ex_raw) = Inr ex_token"
    by (simp add: n)
  from ex_parsed i [of ?keys] a [of ?keys] x [of ?keys] c c2 1 2 3 show ?thesis
    by blast
qed

subsection \<open>The nonce check\<close>

text \<open>
  Claim C5. With a nonce configured, \<^verbatim>\<open>Verify\<close> is the verification without a nonce
  followed by one more check: every error of the other checks is returned as it is, and a
  token that passes them all, the signature included, is rejected with NonceMismatch when
  its nonce claim is not equal to the configured nonce and returned otherwise. So the nonce
  comparison is the last check, and NonceMismatch is returned only for a token whose
  signature verified.
\<close>

theorem Verify_nonce_last:
  assumes "ClaimNonce (cfg v) \<noteq> ''''"
  shows "Verify e v raw =
           (case Verify e (without_nonce v) raw of
              (Inl err, ks, calls) \<Rightarrow> (Inl err, ks, calls)
            | (Inr token, ks, calls) \<Rightarrow>
                if Nonce token \<noteq> ClaimNonce (cfg v)
                then (Inl (NonceMismatch (Nonce token) (ClaimNonce (cfg v))), ks, calls)
                else (Inr token, ks, calls)) \<and>
         (is_NonceMismatch (fst (Verify e v raw)) \<longrightarrow>
            (\<exists>jws payload. jose_ParseSigned e raw = Inr jws \<and> parseJWT e raw = Inr payload \<and>
               signature_ok e v jws payload))"
proof (cases "jose_ParseSigned e raw")
  case (Inl err)
  then show ?thesis
    by (simp add: Verify_parse_error without_nonce_simps is_NonceMismatch_def)
next
  case jws: (Inr jws)
  show ?thesis
  proof (cases "parseJWT e raw")
    case (Inl perr)
    with jws show ?thesis
      by (simp add: Verify_parse_error without_nonce_simps is_NonceMismatch_def)
  next
    case payload: (Inr payload)
    show ?thesis
    proof (cases "json_Unmarshal e payload")
      case (Inl err)
      with jws payload show ?thesis
        by (simp add: Verify_parse_error without_nonce_simps is_NonceMismatch_def)
    next
      case u: (Inr u)
      obtain keyIDs got where
        col: "collect_keyIDs (SupportedSigningAlgs (cfg v)) (Signatures jws) {} [] = (keyIDs, got)"
        by force
      obtain r ks' where keys: "keySet_Keys e (keySet v) = (r, ks')"
        by force
      obtain p x where
        tk: "try_keys e jws (select_keys keyIDs (projr r)) [] xerrors_New = (p, x)"
        by force
      note w = Verify_parsed [of e raw jws payload u "without_nonce v" keyIDs got r ks' p x,
          unfolded without_nonce_simps, OF jws payload u col keys tk]
      note a = Verify_parsed [OF jws payload u col keys tk]
      have 1: "Verify e v raw =
           (case Verify e (without_nonce v) raw of
              (Inl err, ks, calls) \<Rightarrow> (Inl err, ks, calls)
            | (Inr token, ks, calls) \<Rightarrow>
                if Nonce token \<noteq> ClaimNonce (cfg v)
                then (Inl (NonceMismatch (Nonce token) (ClaimNonce (cfg v))), ks, calls)
                else (Inr token, ks, calls))"
        unfolding w a using assms by (simp add: Let_def)
      have "signature_ok e v jws payload" if "is_NonceMismatch (fst (Verify e v raw))"
        using that col keys tk
        by (cases r)
          (auto simp add: a Let_def is_NonceMismatch_def signature_ok_def candidate_keys_def
            keyIDs_of_def split: if_splits)
      with jws payload have 2: "is_NonceMismatch (fst (Verify e v raw)) \<longrightarrow>
            (\<exists>jws payload. jose_ParseSigned e raw = Inr jws \<and> parseJWT e raw = Inr payload \<and>
               signature_ok e v jws payload)"
        by blast
      show ?thesis
        using 1 2 by (rule conjI)
    qed
  qed
qed

theorem Verify_nonce_last_witness:
  "ClaimNonce (cfg (ex_verifier_nonce ''nonce2'')) \<noteq> '''' \<and>
   Verify ex_env (without_nonce (ex_verifier_nonce ''nonce2'')) ex_raw
     = (Inr ex_token, [ex_good_key], 1) \<and>
   Verify ex_env (ex_verifier_nonce ''nonce2'') ex_raw
     = (Inl (NonceMismatch ''nonce1'' ''nonce2''), [ex_good_key], 1) \<and>
   ClaimNonce (cfg (newVerifier [ex_old_key ''old1''] (ex_cfg\<lparr>ClaimNonce := ''nonce2''\<rparr>)
     ex_issuer)) \<noteq> '''' \<and>
   Verify ex_env
     (newVerifier [ex_old_key ''old1''] (ex_cfg\<lparr>ClaimNonce := ''nonce2''\<rparr>) ex_issuer) ex_raw
     = (Inl (SignatureVerificationFailed (Some [''verification error with key old1''])),
        [ex_old_key ''old1''], 1)"
proof -
  let ?v = "ex_verifier_nonce ''nonce2''"
  let ?v2 = "newVerifier [ex_old_key ''old1''] (ex_cfg\<lparr>ClaimNonce := ''nonce2''\<rparr>) ex_issuer"
  have n: "ClaimNonce (cfg ?v) = ''nonce2''" "ClaimNonce (cfg ?v2) = ''nonce2''"
    by (simp_all add: ex_verifier_nonce_def ex_simps)
  have w: "Verify ex_env (without_nonce ?v) ex_raw = (Inr ex_token, [ex_good_key], 1)"
    by (simp add: Verify_def without_nonce_def ex_verifier_nonce_def ex_simps)
  have w2: "Verify ex_env (without_nonce ?v2) ex_raw
      = (Inl (SignatureVerificationFailed (Some [''verification error with key old1''])),
         [ex_old_key ''old1''], 1)"
    by (simp add: Verify_def without_nonce_def ex_old_key_def ex_simps)
  have t: "Nonce ex_token = ''nonce1''"
    by (simp add: ex_simps)
  from Verify_nonce_last [of ?v ex_env ex_raw] Verify_nonce_last [of ?v2 ex_env ex_raw]
  show ?thesis
    by (simp add: n w w2 t)
qed

text \<open>
  Claim C10. With the empty string as the configured nonce, \<^verbatim>\<open>Verify\<close> never fails with
  NonceMismatch; its result does not depend on the token's nonce claim (replacing the claim
  by any \<open>n\<close> changes nothing but the nonce of the returned token); and every token that passes
  the structural, issuer, audience, expiry and signature checks is accepted.
\<close>

theorem Verify_no_nonce:
  assumes "ClaimNonce (cfg v) = ''''"
  shows "\<not> is_NonceMismatch (fst (Verify e v raw)) \<and>
         Verify (with_nonce_claim n e) v raw =
           (case Verify e v raw of
              (r, ks, calls) \<Rightarrow> (map_sum id (\<lambda>token. token\<lparr>Nonce := n\<rparr>) r, ks, calls)) \<and>
         (\<forall>jws payload token.
            parsed e raw jws payload token \<and> issuer_ok v token \<and> audience_ok v token \<and>
            expiry_ok e v token \<and> signature_ok e v jws payload \<longrightarrow>
            fst (Verify e v raw) = Inr token)"
proof -
  let ?e = "with_nonce_claim n e"
  have 12: "\<not> is_NonceMismatch (fst (Verify e v raw)) \<and>
         Verify ?e v raw =
           (case Verify e v raw of
              (r, ks, calls) \<Rightarrow> (map_sum id (\<lambda>token. token\<lparr>Nonce := n\<rparr>) r, ks, calls))"
  proof (cases "jose_ParseSigned e raw")
    case (Inl err)
    then show ?thesis
      by (simp add: Verify_parse_error with_nonce_claim_simps is_NonceMismatch_def)
  next
    case jws: (Inr jws)
    show ?thesis
    proof (cases "parseJWT e raw")
      case (Inl perr)
      with jws show ?thesis
        by (simp add: Verify_parse_error with_nonce_claim_simps is_NonceMismatch_def)
    next
      case payload: (Inr payload)
      show ?thesis
      proof (cases "json_Unmarshal e payload")
        case (Inl err)
        with jws payload show ?thesis
          by (simp add: Verify_parse_error with_nonce_claim_simps is_NonceMismatch_def)
      next
        case u: (Inr u)
        obtain keyIDs got where
          col: "collect_keyIDs (SupportedSigningAlgs (cfg v)) (Signatures jws) {} []
                  = (keyIDs, got)"
          by force
        obtain r ks' where keys: "keySet_Keys e (keySet v) = (r, ks')"
          by force
        obtain p x where
          tk: "try_keys e jws (select_keys keyIDs (projr r)) [] xerrors_New = (p, x)"
          by force
        have jws': "jose_ParseSigned ?e raw = Inr jws"
          and payload': "parseJWT ?e raw = Inr payload"
          and u': "json_Unmarshal ?e payload = Inr (u\<lparr>Nonce := n\<rparr>)"
          and keys': "keySet_Keys ?e (keySet v) = (r, ks')"
          and tk': "try_keys ?e jws (select_keys keyIDs (projr r)) [] xerrors_New = (p, x)"
          by (simp_all add: with_nonce_claim_simps try_keys_with_nonce_claim jws payload u keys tk)
        note a = Verify_parsed [OF jws payload u col keys tk]
        note b = Verify_parsed [OF jws' payload' u' col keys' tk',
            unfolded with_nonce_claim_simps(5)]
        show ?thesis
          unfolding a b using assms
          by (simp add: Let_def is_NonceMismatch_def issuer_ok_def)
      qed
    qed
  qed
  have 3: "fst (Verify e v raw) = Inr token"
    if "parsed e raw jws payload token" and "issuer_ok v token" and "audience_ok v token"
      and "expiry_ok e v token" and "signature_ok e v jws payload" for jws payload token
  proof -
    from that(1) obtain u where jws: "jose_ParseSigned e raw = Inr jws"
      and payload: "parseJWT e raw = Inr payload"
      and u: "json_Unmarshal e payload = Inr u" and token: "token = u\<lparr>claims := payload\<rparr>"
      by (rule parsedD)
    from that(5) obtain keys where c: "candidate_keys e v jws = Some keys"
      and ne: "payload \<noteq> []" and f: "fst (try_keys e jws keys [] xerrors_New) = payload"
      by (auto simp add: signature_ok_def split: option.splits)
    from c obtain keyIDs got allKeys ks' where
      col: "collect_keyIDs (SupportedSigningAlgs (cfg v)) (Signatures jws) {} [] = (keyIDs, got)"
      and k: "keyIDs \<noteq> {}" and keys: "keySet_Keys e (keySet v) = (Inr allKeys, ks')"
      and sel: "keys = select_keys keyIDs allKeys"
      by (rule candidate_keysD)
    obtain x where tk: "try_keys e jws (select_keys keyIDs (projr (Inr allKeys :: string + JSONWebKey list))) [] xerrors_New
        = (payload, x)"
      using f sel by (cases "try_keys e jws keys [] xerrors_New") simp
    have "select_keys keyIDs allKeys \<noteq> []"
      using tk ne by auto
    with that(2-4) k ne assms show ?thesis
      unfolding Verify_parsed [OF jws payload u col keys tk]
      by (simp add: Let_def token audience_ok_def expiry_ok_def)
  qed
  from 12 3 show ?thesis by blast
qed

theorem Verify_no_nonce_witness:
  "ClaimNonce (cfg (ex_verifier_nonce '''')) = '''' \<and>
   parsed ex_env ex_raw ex_jws ''pay'' ex_token \<and>
   issuer_ok (ex_verifier_nonce '''') ex_token \<and>
   audience_ok (ex_verifier_nonce '''') ex_token \<and>
   expiry_ok ex_env (ex_verifier_nonce '''') ex_token \<and>
   signature_ok ex_env (ex_verifier_nonce '''') ex_jws ''pay'' \<and>
   Nonce ex_token = ''nonce1'' \<and>
   fst (Verify ex_env (ex_verifier_nonce '''') ex_raw) = Inr ex_token"
proof -
  let ?v = "ex_verifier_nonce ''''"
  have n: "ClaimNonce (cfg ?v) = ''''"
    by (simp add: ex_verifier_nonce_def ex_simps)
  have i: "issuer_ok ?v ex_token"
    by (simp add: issuer_ok_def ex_verifier_nonce_def ex_simps)
  have a: "audience_ok ?v ex_token"
    by (simp add: audience_ok_def ex_verifier_nonce_def ex_simps)
  have x: "expiry_ok ex_env ?v ex_token"
    by (simp add: expiry_ok_def clock_def ex_verifier_nonce_def ex_simps)
  have s: "signature_ok ex_env ?v ex_jws ''pay''"
    by (simp add: signature_ok_def candidate_keys_def keyIDs_of_def ex_verifier_nonce_def
        ex_simps)
  have t: "Nonce ex_token = ''nonce1''"
    by (simp add: ex_simps)
  from Verify_no_nonce [of ?v ex_env ex_raw "''other''", OF n]
  have "fst (Verify ex_env ?v ex_raw) = Inr ex_token"
    using ex_parsed i a x s by blast
  with ex_parsed n i a x s t show ?thesis
    by simp
qed

section \<open>Properties of the token source\<close>


lemma entered_append: "entered (xs @ ys) = entered xs @ entered ys"
  by (induction xs rule: entered.induct) simp_all


lemma persist_log:
  "snd (snd (persist s c log tok)) = log @ [Entered Persist, SaveToken_call tok, Entered Done]"
  by (simp add: persist_def split: prod.splits option.splits)


lemma interactiveLogin_entered:
  "SilentRefresh \<in> set (entered (snd (snd (interactiveLogin s c log))))
     \<longleftrightarrow> SilentRefresh \<in> set (entered log)"
  by (simp add: interactiveLogin_def Let_def persist_log entered_append
      split: option.splits sum.splits prod.splits)


lemma silentRefresh_entered:
  "SilentRefresh \<in> set (entered (snd (snd (silentRefresh s c log cached))))"
  by (simp add: silentRefresh_def Let_def persist_log interactiveLogin_entered entered_append
      split: sum.splits)

lemma ex_source_simps:
  "cache_Token (ex_source n) c = Inr c"
  "cache_SaveToken (ex_source n) c tok = (None, Some tok)"
  "verifier_Verify (ex_source n) raw = fst (Verify ex_env (ex_verifier_nonce n) raw)"
  "refresh_exchange (ex_source n) r = Inl ''400 Bad Request''"
  "genRandToken (ex_source n) u = ''secret_token''"
  "authCodeURL (ex_source n) state = ''https://issuer.example/auth1?state='' @ state"
  "openBrowser (ex_source n) url = None"
  "callback_wait (ex_source n) url = Inr (''code1'', ''secret_token'')"
  "code_exchange (ex_source n) ''code1'' = Inr testToken"
  by (simp_all add: ex_source_def)

lemma ex_Verify_nonce:
  "Verify ex_env (ex_verifier_nonce n) ex_raw =
     (if n \<noteq> '''' \<and> ''nonce1'' \<noteq> n then Inl (NonceMismatch ''nonce1'' n) else Inr ex_token,
      [ex_good_key], 1)"
  by (simp add: Verify_def ex_verifier_nonce_def ex_simps)

lemma ex_interactiveLogin:
  "interactiveLogin (ex_source n) c log =
     (Inr testToken, Some testToken,
      log @ [Entered InteractiveLogin,
             OpenBrowser_call ''https://issuer.example/auth1?state=secret_token'',
             Exchange_call ''code1'', Entered Persist, SaveToken_call testToken, Entered Done])"
  by (simp add: interactiveLogin_def persist_def Let_def ex_source_simps)



subsection \<open>Successful calls\<close>




subsection \<open>The way into SilentRefresh\<close>

text \<open>
  Claim C7. The state SilentRefresh is entered exactly when a Token is cached and the
  verification of its ID Token fails with a nonce mismatch. After any other verification
  failure of the cached ID Token, the call is the interactive login that starts right after
  the verification. After a nonce mismatch and a refresh exchange that is answered with a
  failure, the call does not fail there: it is the interactive login that starts after the
  refresh call.
\<close>

theorem OIDCToken_silent_refresh:
  "(SilentRefresh \<in> set (entered (snd (snd (OIDCToken s c)))) \<longleftrightarrow>
      (\<exists>cached. cache_Token s c = Inr (Some cached) \<and>
         is_NonceMismatch (verifier_Verify s (IDToken cached)))) \<and>
   (\<forall>cached err.
      cache_Token s c = Inr (Some cached) \<and> verifier_Verify s (IDToken cached) = Inl err \<and>
      \<not> is_NonceMismatch (Inl err) \<longrightarrow>
      OIDCToken s c =
        interactiveLogin s c
          [Entered CacheLookup, Entered ValidCacheHit, Verify_call (IDToken cached)]) \<and>
   (\<forall>cached err.
      cache_Token s c = Inr (Some cached) \<and>
      is_NonceMismatch (verifier_Verify s (IDToken cached)) \<and>
      refresh_exchange s (RefreshToken cached) = Inl err \<longrightarrow>
      OIDCToken s c =
        interactiveLogin s c
          [Entered CacheLookup, Entered ValidCacheHit, Verify_call (IDToken cached),
           Entered SilentRefresh, Refresh_call (RefreshToken cached)])"
proof (intro conjI allI impI)
  show "SilentRefresh \<in> set (entered (snd (snd (OIDCToken s c)))) \<longleftrightarrow>
      (\<exists>cached. cache_Token s c = Inr (Some cached) \<and>
         is_NonceMismatch (verifier_Verify s (IDToken cached)))"
  proof (cases "cache_Token s c")
    case (Inl err)
    then show ?thesis
      by (simp add: OIDCToken_def interactiveLogin_entered)
  next
    case (Inr cache)
    show ?thesis
    proof (cases cache)
      case None
      with Inr show ?thesis
        by (simp add: OIDCToken_def interactiveLogin_entered)
    next
      case (Some cached)
      show ?thesis
      proof (cases "verifier_Verify s (IDToken cached)")
        case ok: (Inr idToken)
        with Inr Some show ?thesis
          by (simp add: OIDCToken_def Let_def is_NonceMismatch_def)
      next
        case err: (Inl err)
        with Inr Some show ?thesis
          by (simp add: OIDCToken_def Let_def interactiveLogin_entered silentRefresh_entered)
      qed
    qed
  qed
next
  fix cached err
  assume "cache_Token s c = Inr (Some cached) \<and> verifier_Verify s (IDToken cached) = Inl err \<and>
      \<not> is_NonceMismatch (Inl err)"
  then show "OIDCToken s c =
        interactiveLogin s c
          [Entered CacheLookup, Entered ValidCacheHit, Verify_call (IDToken cached)]"
    by (simp add: OIDCToken_def)
next
  fix cached err
  assume "cache_Token s c = Inr (Some cached) \<and>
      is_NonceMismatch (verifier_Verify s (IDToken cached)) \<and>
      refresh_exchange s (RefreshToken cached) = Inl err"
  then show "OIDCToken s c =
        interactiveLogin s c
          [Entered CacheLookup, Entered ValidCacheHit, Verify_call (IDToken cached),
           Entered SilentRefresh, Refresh_call (RefreshToken cached)]"
    by (cases "verifier_Verify s (IDToken cached)")
      (simp_all add: OIDCToken_def silentRefresh_def is_NonceMismatch_def)
qed

theorem OIDCToken_silent_refresh_witness:
  "cache_Token (ex_source ''nonce2'') (Some (ex_cached ''access0''))
     = Inr (Some (ex_cached ''access0'')) \<and>
   verifier_Verify (ex_source ''nonce2'') (IDToken (ex_cached ''access0''))
     = Inl (NonceMismatch ''nonce1'' ''nonce2'') \<and>
   refresh_exchange (ex_source ''nonce2'') (RefreshToken (ex_cached ''access0''))
     = Inl ''400 Bad Request'' \<and>
   SilentRefresh \<in> set (entered (snd (snd
     (OIDCToken (ex_source ''nonce2'') (Some (ex_cached ''access0'')))))) \<and>
   fst (OIDCToken (ex_source ''nonce2'') (Some (ex_cached ''access0''))) = Inr testToken"
proof -
  let ?s = "ex_source ''nonce2''"
  let ?c = "Some (ex_cached ''access0'')"
  have v: "verifier_Verify ?s (IDToken (ex_cached ''access0''))
             = Inl (NonceMismatch ''nonce1'' ''nonce2'')"
    by (simp add: ex_source_simps ex_Verify_nonce ex_cached_def)
  have m: "is_NonceMismatch (verifier_Verify ?s (IDToken (ex_cached ''access0'')))"
    by (simp add: v is_NonceMismatch_def)
  have r: "refresh_exchange ?s (RefreshToken (ex_cached ''access0'')) = Inl ''400 Bad Request''"
    by (simp add: ex_source_simps)
  have c: "cache_Token ?s ?c = Inr ?c"
    by (simp add: ex_source_simps)
  note t = OIDCToken_silent_refresh [of ?s ?c]
  from t [THEN conjunct1] c m
  have 1: "SilentRefresh \<in> set (entered (snd (snd (OIDCToken ?s ?c))))"
    by blast
  from t [THEN conjunct2, THEN conjunct2] c m r
  have "OIDCToken ?s ?c =
        interactiveLogin ?s ?c
          [Entered CacheLookup, Entered ValidCacheHit,
           Verify_call (IDToken (ex_cached ''access0'')),
           Entered SilentRefresh, Refresh_call (RefreshToken (ex_cached ''access0''))]"
    by blast
  then have 2: "fst (OIDCToken ?s ?c) = Inr testToken"
    by (simp add: ex_interactiveLogin)
  from c v r 1 2 show ?thesis
    by simp
qed

subsection \<open>Scrubbing the ID Token\<close>

text \<open>
  Claim C8. When a Token is cached, the scrub operation hands one Token to \<^verbatim>\<open>SaveToken\<close>:
  its IDToken is empty, and its AccessToken and RefreshToken are those of the Token that was
  read.
\<close>

theorem clearIDToken_frame:
  assumes "cache_Token s c = Inr (Some cached)"
  shows "\<exists>r c' scrubbed.
           clearIDToken s c = Some (r, c', scrubbed) \<and>
           cache_SaveToken s c scrubbed = (r, c') \<and>
           IDToken scrubbed = '''' \<and>
           AccessToken scrubbed = AccessToken cached \<and>
           RefreshToken scrubbed = RefreshToken cached"
  using assms by (simp add: clearIDToken_def Let_def split: prod.splits)

theorem clearIDToken_frame_witness:
  "cache_Token (ex_source ''nonce1'')
      (Some \<lparr>AccessToken = ''accessToken'', RefreshToken = ''refreshToken'',
             IDToken = ''idToken''\<rparr>)
     = Inr (Some \<lparr>AccessToken = ''accessToken'', RefreshToken = ''refreshToken'',
                  IDToken = ''idToken''\<rparr>) \<and>
   clearIDToken (ex_source ''nonce1'')
      (Some \<lparr>AccessToken = ''accessToken'', RefreshToken = ''refreshToken'',
             IDToken = ''idToken''\<rparr>)
     = Some (None,
             Some \<lparr>AccessToken = ''accessToken'', RefreshToken = ''refreshToken'',
                   IDToken = ''''\<rparr>,
             \<lparr>AccessToken = ''accessToken'', RefreshToken = ''refreshToken'',
               IDToken = ''''\<rparr>)"
proof -
  let ?t = "\<lparr>AccessToken = ''accessToken'', RefreshToken = ''refreshToken'',
             IDToken = ''idToken''\<rparr>"
  have c: "cache_Token (ex_source ''nonce1'') (Some ?t) = Inr (Some ?t)"
    by (simp add: ex_source_simps)
  from clearIDToken_frame [OF c] obtain r c' scrubbed where
    "clearIDToken (ex_source ''nonce1'') (Some ?t) = Some (r, c', scrubbed)"
    and "cache_SaveToken (ex_source ''nonce1'') (Some ?t) scrubbed = (r, c')"
    and "IDToken scrubbed = ''''" and "AccessToken scrubbed = AccessToken ?t"
    and "RefreshToken scrubbed = RefreshToken ?t"
    by blast
  then show ?thesis
    using c by (cases scrubbed) (simp add: ex_source_simps)
qed

end
